theory Spec2Isabelle
  imports Main "HOL-Library.List_Lexorder"
begin

section \<open>Strings of Unicode code points\<close>

text \<open>
  A Python \<open>str\<close> is a sequence of Unicode code points and \<open>len\<close> counts code points,
  so a character is a natural number (its code point) and a string a list of them.
  ASCII literals are written through \<open>u\<close>; the non-ASCII characters of handoff.py are
  named constants.
\<close>

type_synonym uchar = nat
type_synonym ustring = "uchar list"

definition u :: "string \<Rightarrow> ustring" where
  "u s = map of_char s"

definition NL :: uchar where "NL = 10"

text \<open>U+2736 SIX POINTED BLACK STAR, U+23BF, U+2610 BALLOT BOX, U+2612, U+00E9.\<close>

definition STAR6 :: uchar where "STAR6 = 0x2736"
definition CORNER :: uchar where "CORNER = 0x23BF"
definition BOX_EMPTY :: uchar where "BOX_EMPTY = 0x2610"
definition BOX_CHECKED :: uchar where "BOX_CHECKED = 0x2612"
definition E_ACUTE :: uchar where "E_ACUTE = 0xE9"

text \<open>
  \<open>str.isspace\<close> of one character, which is also what \<open>\s\<close> matches in a \<open>str\<close>
  pattern and what \<open>str.strip()\<close> removes: the code points CPython lists in
  \<open>_PyUnicode_IsWhitespace\<close>.
\<close>

definition isspace :: "uchar \<Rightarrow> bool" where
  "isspace c \<longleftrightarrow>
     (0x09 \<le> c \<and> c \<le> 0x0D) \<or> (0x1C \<le> c \<and> c \<le> 0x20) \<or> c = 0x85 \<or> c = 0xA0 \<or>
     c = 0x1680 \<or> (0x2000 \<le> c \<and> c \<le> 0x200A) \<or> c = 0x2028 \<or> c = 0x2029 \<or>
     c = 0x202F \<or> c = 0x205F \<or> c = 0x3000"

text \<open>\<open>s.split('\n')\<close>: always at least one piece.\<close>

fun split_nl :: "ustring \<Rightarrow> ustring list" where
  "split_nl [] = [[]]"
| "split_nl (c # cs) =
     (if c = NL then [] # split_nl cs
      else (let r = split_nl cs in (c # hd r) # tl r))"

text \<open>\<open>sep.join(xs)\<close>.\<close>

fun join :: "ustring \<Rightarrow> ustring list \<Rightarrow> ustring" where
  "join sep [] = []"
| "join sep [x] = x"
| "join sep (x # y # ys) = x @ sep @ join sep (y # ys)"

text \<open>\<open>s.strip()\<close>.\<close>

definition strip :: "ustring \<Rightarrow> ustring" where
  "strip s = rev (dropWhile isspace (rev (dropWhile isspace s)))"

text \<open>\<open>s.startswith(p)\<close> and \<open>needle in hay\<close>.\<close>

definition startswith :: "ustring \<Rightarrow> ustring \<Rightarrow> bool" where
  "startswith s p \<longleftrightarrow> take (length p) s = p"

primrec contains :: "ustring \<Rightarrow> ustring \<Rightarrow> bool" where
  "contains [] needle = (needle = [])"
| "contains (c # cs) needle = (startswith (c # cs) needle \<or> contains cs needle)"

text \<open>
  Slices with one bound, \<open>xs[i:]\<close> and \<open>xs[:j]\<close>: a negative index counts from the
  end, and an index out of range is clamped.
\<close>

definition slice_index :: "int \<Rightarrow> nat \<Rightarrow> nat" where
  "slice_index i n = (if i < 0 then nat (max (i + int n) 0) else min (nat i) n)"

definition slice_from :: "int \<Rightarrow> 'a list \<Rightarrow> 'a list" where
  "slice_from i xs = drop (slice_index i (length xs)) xs"

definition slice_to :: "int \<Rightarrow> 'a list \<Rightarrow> 'a list" where
  "slice_to j xs = take (slice_index j (length xs)) xs"

section \<open>Regular expressions\<close>

text \<open>
  The fragment of \<open>re\<close> that handoff.py uses: literals, character sets and their
  complements, the classes \<open>\s\<close> and \<open>\w\<close>, greedy \<open>*\<close> and \<open>+\<close> over one character,
  \<open>^\<close>, \<open>$\<close>, concatenation and alternation. No pattern has a capturing group.

  \<open>\w\<close> is \<open>str.isalnum\<close> or an underscore; \<open>str.isalnum\<close> is a table of the Unicode
  database and not code of the repository, so \<open>Class\<close> carries the predicate and the
  functions that use \<open>\w\<close> take it as a parameter.
\<close>

datatype item = Lit uchar | Range uchar uchar | Class "uchar \<Rightarrow> bool"

datatype cset = In "item list" | NotIn "item list"

datatype regex =
    Eps
  | Chr cset
  | Star cset
  | Plus cset
  | Bol
  | Eol
  | Cat regex regex
  | Alt regex regex

text \<open>
  With \<open>re.IGNORECASE\<close> a cased literal \<open>p\<close> of a \<open>str\<close> pattern matches the characters
  whose simple lower case is that of \<open>p\<close> or one of its equivalents in
  \<open>sre_compile._ignorecase_fixes\<close>. For the literals of handoff.py's patterns: the
  two ASCII cases, and besides them U+212A KELVIN SIGN for k, U+0130 and U+0131 for i,
  U+017F LONG S for s; U+00C9 for U+00E9. Characters without case match themselves.
  (A range is matched as written: no pattern compiled with \<open>re.IGNORECASE\<close> has one.)
\<close>

definition ci_variants :: "uchar \<Rightarrow> uchar list" where
  "ci_variants p =
     (if 0x41 \<le> p \<and> p \<le> 0x5A \<or> 0x61 \<le> p \<and> p \<le> 0x7A then
        (let lo = (if p \<le> 0x5A then p + 32 else p) in
           [lo, lo - 32] @
           (if lo = 0x6B then [0x212A]
            else if lo = 0x69 then [0x130, 0x131]
            else if lo = 0x73 then [0x17F] else []))
      else if p = 0xE9 \<or> p = 0xC9 then [0xE9, 0xC9]
      else [p])"

fun item_ok :: "bool \<Rightarrow> item \<Rightarrow> uchar \<Rightarrow> bool" where
  "item_ok ic (Lit p) c = (if ic then c \<in> set (ci_variants p) else c = p)"
| "item_ok ic (Range a b) c = (a \<le> c \<and> c \<le> b)"
| "item_ok ic (Class P) c = P c"

fun cset_ok :: "bool \<Rightarrow> cset \<Rightarrow> uchar \<Rightarrow> bool" where
  "cset_ok ic (In its) c = list_ex (\<lambda>it. item_ok ic it c) its"
| "cset_ok ic (NotIn its) c = (\<not> list_ex (\<lambda>it. item_ok ic it c) its)"

text \<open>
  The matcher works on a cursor: the position in the searched string and the input
  that remains from there. \<open>rmatch ic r cur\<close> lists the cursors where a match of \<open>r\<close>
  that starts at \<open>cur\<close> can end, in the order in which the backtracking matcher tries
  them (a greedy repetition tries the longest run first); the head of the list is the
  match \<open>re\<close> reports. \<open>^\<close> holds at position 0; \<open>$\<close> without \<open>re.MULTILINE\<close> holds at
  the end and before a final newline.
\<close>

type_synonym cursor = "nat \<times> ustring"

fun star_ends :: "(uchar \<Rightarrow> bool) \<Rightarrow> nat \<Rightarrow> ustring \<Rightarrow> cursor list" where
  "star_ends P k [] = [(k, [])]"
| "star_ends P k (c # rest) =
     (if P c then star_ends P (k + 1) rest @ [(k, c # rest)] else [(k, c # rest)])"

fun rmatch :: "bool \<Rightarrow> regex \<Rightarrow> cursor \<Rightarrow> cursor list" where
  "rmatch ic Eps (k, s) = [(k, s)]"
| "rmatch ic (Chr cs) (k, s) =
     (case s of [] \<Rightarrow> [] | c # rest \<Rightarrow> if cset_ok ic cs c then [(k + 1, rest)] else [])"
| "rmatch ic (Star cs) (k, s) = star_ends (cset_ok ic cs) k s"
| "rmatch ic (Plus cs) (k, s) =
     (case s of [] \<Rightarrow> []
      | c # rest \<Rightarrow> if cset_ok ic cs c then star_ends (cset_ok ic cs) (k + 1) rest else [])"
| "rmatch ic Bol (k, s) = (if k = 0 then [(k, s)] else [])"
| "rmatch ic Eol (k, s) = (if s = [] \<or> s = [NL] then [(k, s)] else [])"
| "rmatch ic (Cat r1 r2) (k, s) = concat (map (rmatch ic r2) (rmatch ic r1 (k, s)))"
| "rmatch ic (Alt r1 r2) (k, s) = rmatch ic r1 (k, s) @ rmatch ic r2 (k, s)"

text \<open>\<open>re.search(r, s, flags)\<close> as a truth value: some position starts a match.\<close>

fun search_from :: "bool \<Rightarrow> regex \<Rightarrow> nat \<Rightarrow> ustring \<Rightarrow> bool" where
  "search_from ic r k [] = (rmatch ic r (k, []) \<noteq> [])"
| "search_from ic r k (c # rest) =
     (rmatch ic r (k, c # rest) \<noteq> [] \<or> search_from ic r (k + 1) rest)"

definition re_search :: "bool \<Rightarrow> regex \<Rightarrow> ustring \<Rightarrow> bool" where
  "re_search ic r s = search_from ic r 0 s"

text \<open>
  \<open>re.findall(r, s)\<close> for a pattern without groups: the matched substrings, leftmost
  first, the scan resuming where the last match ended. (After an empty match the scan
  moves on by one character; no pattern of handoff.py given to \<open>findall\<close> matches the
  empty string.)
\<close>

function findall_from :: "regex \<Rightarrow> nat \<Rightarrow> ustring \<Rightarrow> ustring list" where
  "findall_from r k s =
     (case rmatch False r (k, s) of
        [] \<Rightarrow> (case s of [] \<Rightarrow> [] | c # rest \<Rightarrow> findall_from r (k + 1) rest)
      | e # _ \<Rightarrow>
          take (fst e - k) s #
          (if s = [] then [] else findall_from r (max (fst e) (k + 1)) (drop (max (fst e - k) 1) s)))"
  by pat_completeness auto
termination
  by (relation "measure (\<lambda>(r, k, s). length s)") auto

definition findall :: "regex \<Rightarrow> ustring \<Rightarrow> ustring list" where
  "findall r s = findall_from r 0 s"

text \<open>Pattern syntax: a literal character, a literal string, a sequence.\<close>

definition chr :: "char \<Rightarrow> regex" where
  "chr c = Chr (In [Lit (of_char c)])"

definition lit :: "string \<Rightarrow> regex" where
  "lit s = foldr (\<lambda>c r. Cat (chr c) r) s Eps"

definition seq :: "regex list \<Rightarrow> regex" where
  "seq rs = foldr Cat rs Eps"

definition ws :: cset where "ws = In [Class isspace]"

section \<open>Noise filter\<close>

text \<open>\<open>NOISE_PATTERNS\<close>, in the source's order.\<close>

definition NOISE_PATTERNS :: "regex list" where
  "NOISE_PATTERNS =
    [seq [Bol, Chr (In [Lit STAR6]), Star ws, lit ''Compacting conversation''],
     seq [Bol, Chr (In [Lit STAR6]), Star ws, lit ''Churned for''],
     seq [Bol, Chr (In [Lit STAR6]), Star ws, lit ''Saut'', Chr (In [Lit E_ACUTE]), lit ''ed for''],
     seq [Bol, Chr (In [Lit STAR6]), Star ws, lit ''Brewed for''],
     seq [Bol, Chr (In [Lit STAR6]), Star ws, lit ''Worked for''],
     seq [Bol, Chr (In [Lit STAR6]), Star ws, lit ''Zigzagging''],
     seq [Bol, Star ws, Chr (In [Lit CORNER]), Star ws, Chr (In [Lit BOX_EMPTY])],
     seq [Bol, Star ws, Chr (In [Lit CORNER]), Star ws, Chr (In [Lit BOX_CHECKED])],
     seq [Bol, lit ''ctrl+c to interrupt''],
     seq [lit ''thinking)'', Eol]]"

text \<open>The inner loop of \<open>filter_noise\<close>: the flag \<open>is_noise\<close>, set at the first pattern found.\<close>

fun noise_scan :: "regex list \<Rightarrow> ustring \<Rightarrow> bool" where
  "noise_scan [] line = False"
| "noise_scan (pattern # rest) line =
     (if re_search True pattern line then True else noise_scan rest line)"

text \<open>The outer loop, with \<open>filtered_lines\<close> as the accumulator.\<close>

fun filter_lines :: "ustring list \<Rightarrow> ustring list \<Rightarrow> ustring list" where
  "filter_lines [] filtered_lines = filtered_lines"
| "filter_lines (line # lines) filtered_lines =
     filter_lines lines
       (if \<not> noise_scan NOISE_PATTERNS line then filtered_lines @ [line] else filtered_lines)"

definition filter_noise :: "ustring \<Rightarrow> ustring" where
  "filter_noise content = join [NL] (filter_lines (split_nl content) [])"

text \<open>
  \<open>is_noise_message\<close>: the list \<open>noise_indicators\<close> and the loop over it, which returns
  at the first indicator found in the stripped content.
\<close>

definition noise_indicators :: "ustring list" where
  "noise_indicators =
     [u ''Compacting conversation'', u ''ctrl+c to interrupt'', [CORNER], [STAR6]]"

fun indicator_scan :: "ustring list \<Rightarrow> ustring \<Rightarrow> bool" where
  "indicator_scan [] content = False"
| "indicator_scan (indicator # rest) content =
     (if contains content indicator then True else indicator_scan rest content)"

definition is_noise_message :: "ustring \<Rightarrow> bool" where
  "is_noise_message content0 =
     (let content = strip content0 in
        if length content < 100 then indicator_scan noise_indicators content else False)"

section \<open>The export and its normalization\<close>

text \<open>
  The parsed JSON export, as \<open>json.load\<close> returns it. Fields are optional (\<open>None\<close>: the
  key is absent); a field that is present carries a value of the type the Claude.ai
  export gives it. The sender is any JSON scalar, since the code only compares it. The
  content of a message is absent, a string, or a list of fragments: a dictionary with
  an optional \<open>text\<close>, a string, or anything else.
\<close>

datatype jv = JNull | JBool bool | JInt int | JStr ustring

datatype fragment = FDict "ustring option" | FStr ustring | FOther

datatype content_field = CAbsent | CStr ustring | CList "fragment list"

record raw_message =
  raw_sender :: "jv option"
  raw_content :: content_field
  raw_text :: "ustring option"
  raw_created_at :: "ustring option"

record export =
  export_chat_messages :: "raw_message list option"
  export_messages :: "raw_message list option"
  export_name :: "ustring option"
  export_summary :: "ustring option"
  export_created_at :: "ustring option"
  export_updated_at :: "ustring option"

text \<open>A turn, the dictionary \<open>parse_json_export\<close> appends, and the dictionary it returns.\<close>

record message =
  sender :: jv
  content :: ustring
  timestamp :: ustring

record handoff_data =
  name :: ustring
  summary :: ustring
  created :: ustring
  updated :: ustring
  messages :: "message list"

datatype error = ValueError ustring | Exception ustring

text \<open>The loop of \<open>extract_content_from_json\<close>, with \<open>texts\<close> as the accumulator.\<close>

fun collect_texts :: "fragment list \<Rightarrow> ustring list \<Rightarrow> ustring list" where
  "collect_texts [] texts = texts"
| "collect_texts (FDict t # items) texts =
     collect_texts items (case t of None \<Rightarrow> texts | Some x \<Rightarrow> if x \<noteq> [] then texts @ [x] else texts)"
| "collect_texts (FStr x # items) texts = collect_texts items (texts @ [x])"
| "collect_texts (FOther # items) texts = collect_texts items texts"

definition text_or_empty :: "raw_message \<Rightarrow> ustring" where
  "text_or_empty msg = (case raw_text msg of None \<Rightarrow> [] | Some t \<Rightarrow> t)"

definition extract_content_from_json :: "raw_message \<Rightarrow> ustring" where
  "extract_content_from_json msg =
     (case raw_content msg of
        CAbsent \<Rightarrow> text_or_empty msg
      | CStr s \<Rightarrow> if s = [] then text_or_empty msg
                  else join [NL] (collect_texts (map (\<lambda>c. FStr [c]) s) [])
      | CList items \<Rightarrow> if items = [] then text_or_empty msg
                       else join [NL] (collect_texts items []))"

definition replace_char :: "uchar \<Rightarrow> uchar \<Rightarrow> ustring \<Rightarrow> ustring" where
  "replace_char a b s = map (\<lambda>c. if c = a then b else c) s"

definition get_or :: "'a option \<Rightarrow> 'a \<Rightarrow> 'a" where
  "get_or v d = (case v of None \<Rightarrow> d | Some x \<Rightarrow> x)"

text \<open>
  The body of the loop of \<open>parse_json_export\<close> for one raw message: \<open>None\<close> where the
  source says \<open>continue\<close>, the appended turn otherwise.
\<close>

definition turn_of :: "raw_message \<Rightarrow> message option" where
  "turn_of msg =
     (let content = extract_content_from_json msg in
      if strip content = [] then None
      else
        let content = filter_noise content in
        if strip content = [] then None
        else if is_noise_message content then None
        else Some \<lparr>sender = get_or (raw_sender msg) (JStr (u ''unknown'')),
                   content = content,
                   timestamp = replace_char 0x54 0x20 (take 19 (get_or (raw_created_at msg) []))\<rparr>)"

text \<open>The loop itself; \<open>acc\<close> is the list \<open>messages\<close> the source appends to.\<close>

fun parse_loop :: "raw_message list \<Rightarrow> message list \<Rightarrow> message list" where
  "parse_loop [] acc = acc"
| "parse_loop (msg # rest) acc =
     parse_loop rest (case turn_of msg of None \<Rightarrow> acc | Some t \<Rightarrow> acc @ [t])"

definition missing_field_message :: ustring where
  "missing_field_message =
     u ''Invalid JSON format: missing '' @ [0x27] @ u ''chat_messages'' @ [0x27] @
     u '' or '' @ [0x27] @ u ''messages'' @ [0x27] @ u '' field''"

text \<open>
  \<open>parse_json_export\<close>, from the loaded \<open>data\<close> on (opening and decoding the file is
  outside the model).
\<close>

definition parse_json_export :: "export \<Rightarrow> error + handoff_data" where
  "parse_json_export data =
     (if export_chat_messages data = None \<and> export_messages data = None
      then Inl (ValueError missing_field_message)
      else
        let raw_messages = get_or (export_chat_messages data) (get_or (export_messages data) [])
        in Inr \<lparr>name = get_or (export_name data) (u ''Unknown Chat''),
                 summary = get_or (export_summary data) [],
                 created = take 10 (get_or (export_created_at data) []),
                 updated = take 10 (get_or (export_updated_at data) []),
                 messages = parse_loop raw_messages []\<rparr>)"

section \<open>Signal extraction\<close>

text \<open>\<open>estimate_tokens\<close> takes a string or a count.\<close>

datatype text_or_count = Text ustring | Count nat

fun estimate_tokens :: "text_or_count \<Rightarrow> nat" where
  "estimate_tokens (Count n) = n div 4"
| "estimate_tokens (Text t) = length t div 4"

text \<open>
  The patterns of \<open>extract_file_paths\<close>, in the source's order; \<open>isalnum\<close> is
  \<open>str.isalnum\<close> on one character.
\<close>

definition word_char :: "(uchar \<Rightarrow> bool) \<Rightarrow> uchar \<Rightarrow> bool" where
  "word_char isalnum c \<longleftrightarrow> isalnum c \<or> c = 0x5F"

definition path_chars :: "(uchar \<Rightarrow> bool) \<Rightarrow> cset" where
  "path_chars isalnum = In [Class (word_char isalnum), Lit 0x2D, Lit 0x2E, Lit 0x2F]"

definition path_patterns :: "(uchar \<Rightarrow> bool) \<Rightarrow> regex list" where
  "path_patterns isalnum =
    [seq [Chr (In [Range 0x41 0x5A, Range 0x61 0x7A]), chr CHR '':'', Chr (In [Lit 0x5C]),
          Plus (NotIn [Class isspace, Lit 0x27, Lit 0x22, Lit 0x3C, Lit 0x3E, Lit 0x7C])],
     seq [chr CHR ''/'', Plus (path_chars isalnum), chr CHR ''.'',
          Plus (In [Class (word_char isalnum)])],
     seq [lit ''src/'', Plus (path_chars isalnum)],
     seq [lit ''server/'', Plus (path_chars isalnum)],
     seq [lit ''docs/'', Plus (path_chars isalnum)],
     seq [lit ''lib/'', Plus (path_chars isalnum)],
     seq [lit ''app/'', Plus (path_chars isalnum)],
     seq [lit ''components/'', Plus (path_chars isalnum)]]"

text \<open>
  The set \<open>paths\<close> is kept as a list without repetitions, in the order of insertion.
  \<open>set_update\<close> is \<open>paths.update(matches)\<close>, \<open>collect_paths\<close> the loop over the patterns.
\<close>

fun set_update :: "ustring list \<Rightarrow> ustring list \<Rightarrow> ustring list" where
  "set_update paths [] = paths"
| "set_update paths (m # ms) = set_update (if m \<in> set paths then paths else paths @ [m]) ms"

fun collect_paths :: "regex list \<Rightarrow> ustring \<Rightarrow> ustring list \<Rightarrow> ustring list" where
  "collect_paths [] text paths = paths"
| "collect_paths (pattern # rest) text paths =
     collect_paths rest text (set_update paths (findall pattern text))"

definition keep_path :: "ustring \<Rightarrow> bool" where
  "keep_path p \<longleftrightarrow> 5 < length p \<and> \<not> startswith p (u ''//'')"

text \<open>
  Python iterates over a set in an order the language leaves open. \<open>sorted_paths\<close> is
  the comprehension and the sort for a given order of iteration; \<open>extract_file_paths\<close>
  takes the order of insertion.
\<close>

definition sorted_paths :: "ustring list \<Rightarrow> ustring list" where
  "sorted_paths iteration = sort (filter keep_path iteration)"

definition extract_file_paths :: "(uchar \<Rightarrow> bool) \<Rightarrow> ustring \<Rightarrow> ustring list" where
  "extract_file_paths isalnum text =
     sorted_paths (collect_paths (path_patterns isalnum) text [])"

text \<open>The markers of \<open>extract_decisions\<close>, in the source's order, and its two loops.\<close>

definition alt :: "regex list \<Rightarrow> regex" where
  "alt rs = foldr Alt (butlast rs) (last rs)"

definition decision_markers :: "regex list" where
  "decision_markers =
    [seq [alt [lit ''we'', lit ''I''], chr CHR '' '',
          alt [lit ''decided'', lit ''chose'', lit ''will'', lit ''should'', lit ''need to'']],
     seq [alt [lit ''the'', lit ''our''], lit '' pattern''],
     lit ''convention'',
     lit ''architecture'',
     lit ''migration'',
     lit ''IMPORTANT'',
     lit ''NOTE:'',
     lit ''TODO:'']"

text \<open>The inner loop appends the line at the first marker found and breaks.\<close>

fun marker_scan :: "regex list \<Rightarrow> ustring \<Rightarrow> ustring list \<Rightarrow> ustring list" where
  "marker_scan [] line decisions = decisions"
| "marker_scan (marker # rest) line decisions =
     (if re_search True marker line then decisions @ [line]
      else marker_scan rest line decisions)"

fun decisions_loop :: "ustring list \<Rightarrow> ustring list \<Rightarrow> ustring list" where
  "decisions_loop [] decisions = decisions"
| "decisions_loop (raw_line # rest) decisions =
     (let line = strip raw_line in
      decisions_loop rest
        (if 20 < length line \<and> length line < 500
         then marker_scan decision_markers line decisions else decisions))"

definition extract_decisions :: "ustring \<Rightarrow> ustring list" where
  "extract_decisions text = take 20 (decisions_loop (split_nl text) [])"

text \<open>ASCII letters and digits: \<open>str.isalnum\<close> restricted to ASCII, for the examples.\<close>

definition ascii_alnum :: "uchar \<Rightarrow> bool" where
  "ascii_alnum c \<longleftrightarrow> 0x30 \<le> c \<and> c \<le> 0x39 \<or> 0x41 \<le> c \<and> c \<le> 0x5A \<or> 0x61 \<le> c \<and> c \<le> 0x7A"

section \<open>Number formatting\<close>

text \<open>\<open>str(n)\<close> and the format \<open>{n:,}\<close> for a number that is not negative.\<close>

fun digits :: "nat \<Rightarrow> ustring" where
  "digits n = (if n < 10 then [0x30 + n] else digits (n div 10) @ [0x30 + n mod 10])"

declare digits.simps [simp del]

function group3 :: "ustring \<Rightarrow> ustring" where
  "group3 ds =
     (if length ds \<le> 3 then ds
      else group3 (take (length ds - 3) ds) @ [0x2C] @ drop (length ds - 3) ds)"
  by pat_completeness auto
termination
  by (relation "measure length") auto

declare group3.simps [simp del]

definition commas :: "nat \<Rightarrow> ustring" where
  "commas n = group3 (digits n)"

section \<open>Configuration and the summarization call\<close>

definition VERBATIM_MESSAGE_COUNT :: nat where "VERBATIM_MESSAGE_COUNT = 30"
definition SMART_MODEL :: ustring where "SMART_MODEL = u ''claude-sonnet-4-20250514''"
definition SMART_MAX_TOKENS :: int where "SMART_MAX_TOKENS = 4096"

text \<open>\<open>config.json\<close> as loaded: every key optional, the numbers integers.\<close>

record smart_config =
  cfg_model :: "ustring option"
  cfg_max_output_tokens :: "int option"
  cfg_verbatim_recent_messages :: "int option"

record config =
  anthropic_api_key :: "ustring option"
  smart_mode :: "smart_config option"

definition smart_get :: "config \<Rightarrow> (smart_config \<Rightarrow> 'a option) \<Rightarrow> 'a \<Rightarrow> 'a" where
  "smart_get cfg field d =
     (case smart_mode cfg of None \<Rightarrow> d | Some sm \<Rightarrow> get_or (field sm) d)"

text \<open>
  The network is a parameter: \<open>urlopen\<close> answers a request with the text of the
  response, with an HTTP error (status and body), or with any other failure inside the
  \<open>try\<close> of \<open>call_claude_api\<close> (a timeout, a response that is not the expected JSON).
\<close>

record api_request =
  req_api_key :: ustring
  req_model :: ustring
  req_max_tokens :: int
  req_prompt :: ustring

datatype api_outcome = Response ustring | HTTPError nat ustring | Failed ustring

datatype mode = Smart | Standard

text \<open>
  What the run does to the world, in order: a call of the API, the entry into a
  strategy (noted by \<open>main_generate\<close> at the call), the write of the document.
\<close>

datatype event = ApiCall api_request | Invoked mode | Written ustring

definition call_claude_api ::
  "(api_request \<Rightarrow> api_outcome) \<Rightarrow> ustring \<Rightarrow> ustring \<Rightarrow> ustring \<Rightarrow> int \<Rightarrow> error + ustring" where
  "call_claude_api urlopen api_key prompt model max_tokens =
     (case urlopen \<lparr>req_api_key = api_key, req_model = model, req_max_tokens = max_tokens,
                     req_prompt = prompt\<rparr> of
        Response t \<Rightarrow> Inr t
      | HTTPError code error_body \<Rightarrow>
          Inl (Exception (u ''API Error '' @ digits code @ u '': '' @ error_body))
      | Failed e \<Rightarrow> Inl (Exception (u ''API call failed: '' @ e)))"

definition human :: jv where "human = JStr (u ''human'')"

definition conversation_part :: "message \<Rightarrow> ustring" where
  "conversation_part msg =
     u ''['' @ (if sender msg = human then u ''Human'' else u ''Assistant'') @ u '']: '' @
     take 5000 (content msg)"

definition conversation_text :: "message list \<Rightarrow> ustring" where
  "conversation_text msgs =
     (let t = join [NL, NL] (map conversation_part msgs) in
      if 350000 < length t
      then take 350000 t @ [NL, NL] @ u ''[...truncated due to size...]'' else t)"

definition summary_prompt :: "ustring \<Rightarrow> ustring" where
  "summary_prompt conv =
     join [NL]
      [u ''You are analyzing a development conversation to create a handoff document for resuming work in a new chat session.'',
       [],
       u ''CONVERSATION TO ANALYZE:'',
       conv,
       [],
       u ''Create a structured summary with these sections:'',
       [],
       u ''## Session Overview'',
       u ''Brief 2-3 sentence summary of what was accomplished.'',
       [],
       u ''## Key Accomplishments'',
       u ''Bullet list of concrete things completed (files created, features implemented, bugs fixed).'',
       [],
       u ''## Architecture Decisions'',
       u ''Important technical decisions made, patterns established, conventions adopted.'',
       [],
       u ''## Files Modified'',
       u ''List the key files that were created or modified (just paths, no descriptions).'',
       [],
       u ''## Current State'',
       u ''Where things stand at the end of this portion of the conversation - what works, what'' @
         [0x27] @ u ''s in progress.'',
       [],
       u ''## Known Issues / TODOs'',
       u ''Any bugs, incomplete items, or next steps mentioned.'',
       [],
       u ''## Critical Context for Continuation'',
       u ''Any specific details (variable names, patterns, gotchas) that would be essential for continuing this work.'',
       [],
       u ''Be concise but complete. Focus on actionable information for resuming work.'']"

definition summary_request :: "message list \<Rightarrow> ustring \<Rightarrow> config \<Rightarrow> api_request" where
  "summary_request msgs api_key cfg =
     \<lparr>req_api_key = api_key,
      req_model = smart_get cfg cfg_model SMART_MODEL,
      req_max_tokens = smart_get cfg cfg_max_output_tokens SMART_MAX_TOKENS,
      req_prompt = summary_prompt (conversation_text msgs)\<rparr>"

text \<open>
  \<open>generate_smart_summary\<close>: the result of the call, or the exception it raises, and the
  log with the call added. (The spinner and the printed warning are not modelled.)
\<close>

definition generate_smart_summary ::
  "(api_request \<Rightarrow> api_outcome) \<Rightarrow> message list \<Rightarrow> ustring \<Rightarrow> config \<Rightarrow> event list \<Rightarrow>
   (error + ustring) \<times> event list" where
  "generate_smart_summary urlopen msgs api_key cfg log =
     (let model = smart_get cfg cfg_model SMART_MODEL;
          max_tokens = smart_get cfg cfg_max_output_tokens SMART_MAX_TOKENS;
          prompt = summary_prompt (conversation_text msgs)
      in (call_claude_api urlopen api_key prompt model max_tokens,
          log @ [ApiCall (summary_request msgs api_key cfg)]))"

section \<open>Handoff generation\<close>

text \<open>
  The body of the loop over the recent messages, the same in both strategies: the four
  lines it appends for one message.
\<close>

definition truncation_marker :: "nat \<Rightarrow> ustring" where
  "truncation_marker n =
     [NL, NL] @ u ''*[Truncated - original was '' @ commas n @ u '' chars]*''"

definition turn_lines :: "message \<Rightarrow> ustring list" where
  "turn_lines msg =
     (let sender_label = (if sender msg = human then u ''**Human:**'' else u ''**Assistant:**'');
          c = content msg;
          c = (if 8000 < length c then take 8000 c @ truncation_marker (length (content msg))
               else c)
      in [u ''### '' @ sender_label @ u '' ('' @ timestamp msg @ u '')'', [], c, []])"

fun render_loop :: "message list \<Rightarrow> ustring list \<Rightarrow> ustring list" where
  "render_loop [] acc = acc"
| "render_loop (msg # rest) acc = render_loop rest (acc @ turn_lines msg)"

definition footer :: "ustring list" where
  "footer =
     [u ''---'', [], u ''## Resumption Instructions'', [],
      u ''1. Share this handoff document with Claude in a new chat'',
      u ''2. Reference any relevant project documentation'',
      u ''3. Specify which aspect of the work to continue'', []]"

definition quick_context :: "handoff_data \<Rightarrow> ustring list" where
  "quick_context data =
     (if summary data \<noteq> []
      then [u ''## Quick Context (Claude.ai Auto-generated)'', [], summary data, []] else [])"

text \<open>
  \<open>generate_handoff_standard\<close>: \<open>standard_head\<close> is the list \<open>lines\<close> when the loop over
  the recent messages starts; \<open>now\<close> is the formatted time of generation.
\<close>

definition standard_head :: "(uchar \<Rightarrow> bool) \<Rightarrow> ustring \<Rightarrow> handoff_data \<Rightarrow> ustring list" where
  "standard_head isalnum now data =
     (let msgs = messages data;
          all_text = join [NL] (map content msgs);
          file_paths = extract_file_paths isalnum all_text;
          decisions = extract_decisions all_text
      in [u ''# Handoff: '' @ name data, [],
          u ''**Generated:** '' @ now,
          u ''**Mode:** Standard (algorithmic - offline)'',
          u ''**Original Chat Period:** '' @ created data @ u '' to '' @ updated data,
          u ''**Message Count:** '' @ digits (length msgs),
          u ''**Estimated Tokens:** ~'' @ commas (estimate_tokens (Text all_text)), []] @
         quick_context data @
         (if file_paths \<noteq> []
          then [u ''## Files Referenced'', []] @
               map (\<lambda>path. u ''- '' @ [0x60] @ path @ [0x60]) (take 30 file_paths) @ [[]]
          else []) @
         (if decisions \<noteq> []
          then [u ''## Key Decisions & Patterns'', []] @
               map (\<lambda>decision. u ''- '' @ strip decision) decisions @ [[]]
          else []) @
         [u ''## Recent Conversation (Verbatim)'', [],
          u ''*Last '' @ digits (min VERBATIM_MESSAGE_COUNT (length msgs)) @
            u '' messages preserved:*'', []])"

definition generate_handoff_standard ::
  "(uchar \<Rightarrow> bool) \<Rightarrow> ustring \<Rightarrow> handoff_data \<Rightarrow> ustring" where
  "generate_handoff_standard isalnum now data =
     join [NL]
       (render_loop (slice_from (- int VERBATIM_MESSAGE_COUNT) (messages data))
          (standard_head isalnum now data) @ footer)"

text \<open>
  \<open>generate_handoff_smart\<close>. \<open>older_messages\<close> and \<open>recent_messages\<close> are the two slices
  of its split, \<open>smart_head\<close> the list \<open>lines\<close> when the loop over the recent messages
  starts.
\<close>

definition older_messages :: "int \<Rightarrow> message list \<Rightarrow> message list" where
  "older_messages verbatim_count msgs =
     (if verbatim_count < int (length msgs) then slice_to (- verbatim_count) msgs else [])"

definition recent_messages :: "int \<Rightarrow> message list \<Rightarrow> message list" where
  "recent_messages verbatim_count msgs = slice_from (- verbatim_count) msgs"

definition ai_section :: "ustring \<Rightarrow> ustring list" where
  "ai_section ai_summary =
     (if ai_summary \<noteq> []
      then [u ''## AI-Summarized Earlier Content'', [], ai_summary, []] else [])"

definition smart_head ::
  "ustring \<Rightarrow> handoff_data \<Rightarrow> message list \<Rightarrow> message list \<Rightarrow> ustring \<Rightarrow> ustring list" where
  "smart_head now data older recent ai_summary =
     (let msgs = messages data;
          total_chars = sum_list (map (\<lambda>m. length (content m)) msgs)
      in [u ''# Handoff: '' @ name data, [],
          u ''**Generated:** '' @ now,
          u ''**Mode:** Smart (AI-summarized)'',
          u ''**Original Chat Period:** '' @ created data @ u '' to '' @ updated data,
          u ''**Message Count:** '' @ digits (length msgs) @ u '' ('' @ digits (length older) @
            u '' summarized, '' @ digits (length recent) @ u '' verbatim)'',
          u ''**Original Size:** ~'' @ commas (estimate_tokens (Count total_chars)) @ u '' tokens'',
          []] @
         quick_context data @
         ai_section ai_summary @
         [u ''## Recent Conversation (Verbatim)'', [],
          u ''*Last '' @ digits (length recent) @ u '' messages preserved for immediate context:*'',
          []])"

definition generate_handoff_smart ::
  "(api_request \<Rightarrow> api_outcome) \<Rightarrow> ustring \<Rightarrow> handoff_data \<Rightarrow> ustring \<Rightarrow> config \<Rightarrow>
   event list \<Rightarrow> (error + ustring) \<times> event list" where
  "generate_handoff_smart urlopen now data api_key cfg log =
     (let msgs = messages data;
          verbatim_count =
            smart_get cfg cfg_verbatim_recent_messages (int VERBATIM_MESSAGE_COUNT);
          older = older_messages verbatim_count msgs;
          recent = recent_messages verbatim_count msgs
      in case (if older \<noteq> [] then generate_smart_summary urlopen older api_key cfg log
               else (Inr [], log)) of
           (Inl e, log') \<Rightarrow> (Inl e, log')
         | (Inr ai_summary, log') \<Rightarrow>
             (Inr (join [NL]
                (render_loop recent (smart_head now data older recent ai_summary) @ footer)),
              log'))"

text \<open>
  \<open>main\<close> from the choice of the mode on: the strategy runs, and the document is
  written when it returns. An exception leaves \<open>main\<close> (\<open>Some e\<close>); the name of the
  output file is not modelled.
\<close>

definition main_generate ::
  "(api_request \<Rightarrow> api_outcome) \<Rightarrow> (uchar \<Rightarrow> bool) \<Rightarrow> ustring \<Rightarrow> mode \<Rightarrow> handoff_data \<Rightarrow>
   config \<Rightarrow> event list \<Rightarrow> error option \<times> event list" where
  "main_generate urlopen isalnum now md data cfg log =
     (case md of
        Smart \<Rightarrow>
          (let api_key = get_or (anthropic_api_key cfg) [] in
           case generate_handoff_smart urlopen now data api_key cfg (log @ [Invoked Smart]) of
             (Inl e, log') \<Rightarrow> (Some e, log')
           | (Inr handoff_content, log') \<Rightarrow> (None, log' @ [Written handoff_content]))
      | Standard \<Rightarrow>
          (None, log @ [Invoked Standard,
                        Written (generate_handoff_standard isalnum now data)]))"

section \<open>Example inputs\<close>

text \<open>
  An export whose only message is the text of one line: U+2736 followed by 99 times
  the letter x (100 characters).
\<close>

definition long_star_export :: export where
  "long_star_export =
     \<lparr>export_chat_messages = Some [\<lparr>raw_sender = None, raw_content = CAbsent,
         raw_text = Some (STAR6 # replicate 99 0x78), raw_created_at = None\<rparr>],
      export_messages = None, export_name = None, export_summary = None,
      export_created_at = None, export_updated_at = None\<rparr>"

text \<open>An export with one two-line message from the human, and one with no container.\<close>

definition hello_export :: export where
  "hello_export =
     \<lparr>export_chat_messages = None,
      export_messages = Some [\<lparr>raw_sender = Some (JStr (u ''human'')),
         raw_content = CList [FDict (Some (u ''hello'')), FOther, FStr (u ''world'')],
         raw_text = None, raw_created_at = Some (u ''2025-01-02T03:04:05.678Z'')\<rparr>],
      export_name = Some (u ''Chat''), export_summary = None,
      export_created_at = Some (u ''2025-01-02T03:04:05.678Z''), export_updated_at = None\<rparr>"

definition hello_message :: message where
  "hello_message =
     \<lparr>sender = JStr (u ''human''), content = u ''hello'' @ [NL] @ u ''world'',
      timestamp = u ''2025-01-02 03:04:05''\<rparr>"

definition hello_data :: handoff_data where
  "hello_data =
     \<lparr>name = u ''Chat'', summary = [], created = u ''2025-01-02'', updated = [],
      messages = [hello_message]\<rparr>"

definition no_container_export :: export where
  "no_container_export =
     \<lparr>export_chat_messages = None, export_messages = None, export_name = Some (u ''Chat''),
      export_summary = None, export_created_at = None, export_updated_at = None\<rparr>"

text \<open>A text that mentions paths, and a text with one decision.\<close>

definition paths_text :: ustring where
  "paths_text = u ''src/a.py //x/y.js lib/a.c src/a.py''"

definition decision_text :: ustring where
  "decision_text =
     u ''  We Decided to use the repository pattern here.  '' @ [NL] @ u ''short NOTE: x''"

text \<open>
  Conversations of five turns and of two turns, configurations (none, a verbatim count
  of 1, a verbatim count of 0), a summarization call that times out, a turn of 9000
  characters, and a raw message without a sender.
\<close>

definition five_turn_data :: handoff_data where
  "five_turn_data = hello_data\<lparr>messages := replicate 5 hello_message\<rparr>"

definition two_turn_data :: handoff_data where
  "two_turn_data = hello_data\<lparr>messages := [hello_message, hello_message]\<rparr>"

definition default_config :: config where
  "default_config = \<lparr>anthropic_api_key = Some (u ''key''), smart_mode = None\<rparr>"

definition verbatim_config :: "int \<Rightarrow> config" where
  "verbatim_config n =
     \<lparr>anthropic_api_key = Some (u ''key''),
      smart_mode = Some \<lparr>cfg_model = None, cfg_max_output_tokens = None,
                          cfg_verbatim_recent_messages = Some n\<rparr>\<rparr>"

definition timeout_urlopen :: "api_request \<Rightarrow> api_outcome" where
  "timeout_urlopen req = Failed (u ''timed out'')"





text \<open>A message of three lines, two of them status lines.\<close>

definition status_text :: ustring where
  "status_text =
     u ''keep this'' @ [NL] @ [STAR6] @ u '' compacting Conversation...'' @ [NL] @
     u ''  '' @ [CORNER] @ u '' '' @ [BOX_CHECKED] @ u '' done''"

section \<open>Facts about splitting and joining\<close>

lemma split_nl_nonempty: "split_nl s \<noteq> []"
  by (induction s) (auto simp: Let_def)

lemma split_nl_no_newline: "l \<in> set (split_nl s) \<Longrightarrow> NL \<notin> set l"
proof (induction s arbitrary: l)
  case Nil
  then show ?case by simp
next
  case (Cons c cs)
  obtain h t where r: "split_nl cs = h # t"
    using split_nl_nonempty [of cs] by (cases "split_nl cs") auto
  show ?case
  proof (cases "c = NL")
    case True
    with Cons show ?thesis by auto
  next
    case False
    with Cons.prems r have "l = c # h \<or> l \<in> set t" by (auto simp: Let_def)
    with Cons.IH r False show ?thesis by auto
  qed
qed

lemma split_nl_line: "NL \<notin> set l \<Longrightarrow> split_nl l = [l]"
  by (induction l) (auto simp: Let_def)

lemma split_nl_append:
  "NL \<notin> set l \<Longrightarrow> split_nl (l @ NL # rest) = l # split_nl rest"
  by (induction l) (auto simp: Let_def)

lemma split_join:
  "ls \<noteq> [] \<Longrightarrow> \<forall>l \<in> set ls. NL \<notin> set l \<Longrightarrow> split_nl (join [NL] ls) = ls"
proof (induction ls)
  case Nil
  then show ?case by simp
next
  case (Cons x xs)
  show ?case
  proof (cases xs)
    case Nil
    with Cons.prems show ?thesis by (simp add: split_nl_line)
  next
    case (Cons y ys)
    with Cons.IH Cons.prems show ?thesis by (simp add: split_nl_append)
  qed
qed

lemma join_split: "join [NL] (split_nl s) = s"
proof (induction s)
  case Nil
  show ?case by simp
next
  case (Cons c cs)
  obtain h t where r: "split_nl cs = h # t"
    using split_nl_nonempty [of cs] by (cases "split_nl cs") auto
  with Cons show ?case by (cases t) (auto simp: Let_def)
qed

lemma filter_lines_eq:
  "filter_lines ls acc = acc @ filter (\<lambda>l. \<not> noise_scan NOISE_PATTERNS l) ls"
  by (induction ls arbitrary: acc) auto

lemma noise_scan_empty_line: "\<not> noise_scan NOISE_PATTERNS []"
  by (simp add: NOISE_PATTERNS_def re_search_def seq_def lit_def chr_def)

lemma filter_noise_lines:
  "filter_noise s = join [NL] (filter (\<lambda>l. \<not> noise_scan NOISE_PATTERNS l) (split_nl s))"
  by (simp add: filter_noise_def filter_lines_eq)

lemma split_filter_noise:
  "filter (\<lambda>l. \<not> noise_scan NOISE_PATTERNS l) (split_nl s) \<noteq> [] \<Longrightarrow>
   split_nl (filter_noise s) = filter (\<lambda>l. \<not> noise_scan NOISE_PATTERNS l) (split_nl s)"
  unfolding filter_noise_lines
  by (rule split_join) (auto dest: split_nl_no_newline)

lemma filter_noise_all_dropped:
  "filter (\<lambda>l. \<not> noise_scan NOISE_PATTERNS l) (split_nl s) = [] \<Longrightarrow> filter_noise s = []"
  by (simp add: filter_noise_lines)

lemma join_infix: "l \<in> set ls \<Longrightarrow> \<exists>ps ss. join sep ls = ps @ l @ ss"
proof (induction ls)
  case Nil
  then show ?case by simp
next
  case (Cons x xs)
  show ?case
  proof (cases xs)
    case Nil
    with Cons.prems have "join sep (x # xs) = [] @ l @ []" by simp
    then show ?thesis by blast
  next
    case c: (Cons y ys)
    show ?thesis
    proof (cases "l = x")
      case True
      then have "join sep (x # xs) = [] @ l @ (sep @ join sep xs)" by (simp add: c)
      then show ?thesis by blast
    next
      case False
      with Cons.prems have "l \<in> set xs" by simp
      then obtain ps ss where "join sep xs = ps @ l @ ss" using Cons.IH by blast
      then have "join sep (x # xs) = (x @ sep @ ps) @ l @ ss" by (simp add: c)
      then show ?thesis by blast
    qed
  qed
qed

lemma line_infix: "l \<in> set (split_nl s) \<Longrightarrow> \<exists>ps ss. s = ps @ l @ ss"
  using join_infix [of l "split_nl s" "[NL]"] by (simp add: join_split)

lemma contains_iff: "contains s n \<longleftrightarrow> (\<exists>ps ss. s = ps @ n @ ss)"
proof (induction s)
  case Nil
  show ?case by auto
next
  case (Cons c cs)
  show ?case
  proof
    assume "contains (c # cs) n"
    then consider "startswith (c # cs) n" | "contains cs n" by auto
    then show "\<exists>ps ss. c # cs = ps @ n @ ss"
    proof cases
      case 1
      then have "c # cs = [] @ n @ drop (length n) (c # cs)"
        unfolding startswith_def by (metis append_Nil append_take_drop_id)
      then show ?thesis by blast
    next
      case 2
      then obtain ps ss where "cs = ps @ n @ ss" using Cons.IH by blast
      then have "c # cs = (c # ps) @ n @ ss" by simp
      then show ?thesis by blast
    qed
  next
    assume "\<exists>ps ss. c # cs = ps @ n @ ss"
    then obtain ps ss where e: "c # cs = ps @ n @ ss" by blast
    show "contains (c # cs) n"
    proof (cases ps)
      case Nil
      with e have "startswith (c # cs) n" by (simp add: startswith_def)
      then show ?thesis by simp
    next
      case (Cons p ps')
      with e have "cs = ps' @ n @ ss" by simp
      then have "contains cs n" using Cons.IH by blast
      then show ?thesis by simp
    qed
  qed
qed

lemma dropWhile_keeps_infix:
  "n \<noteq> [] \<Longrightarrow> \<not> P (hd n) \<Longrightarrow> \<exists>ps'. dropWhile P (ps @ n @ ss) = ps' @ n @ ss"
proof (induction ps)
  case Nil
  then have "dropWhile P (n @ ss) = [] @ n @ ss" by (cases n) auto
  then show ?case by simp
next
  case (Cons a ps)
  show ?case
  proof (cases "P a")
    case True
    with Cons show ?thesis by simp
  next
    case False
    then have "dropWhile P ((a # ps) @ n @ ss) = (a # ps) @ n @ ss" by simp
    then show ?thesis by blast
  qed
qed

lemma strip_keeps_infix:
  assumes "n \<noteq> []" "\<not> isspace (hd n)" "\<not> isspace (last n)" "contains s n"
  shows "contains (strip s) n"
proof -
  obtain ps ss where "s = ps @ n @ ss" using assms(4) contains_iff by blast
  then obtain ps' where a: "dropWhile isspace s = ps' @ n @ ss"
    using dropWhile_keeps_infix [of n isspace ps ss] assms(1,2) by auto
  have "rev n \<noteq> []" "\<not> isspace (hd (rev n))"
    using assms(1,3) by (simp_all add: hd_rev)
  then obtain q where "dropWhile isspace (rev ss @ rev n @ rev ps') = q @ rev n @ rev ps'"
    using dropWhile_keeps_infix [of "rev n" isspace "rev ss" "rev ps'"] by auto
  then have "strip s = ps' @ n @ rev q" by (simp add: strip_def a)
  then show ?thesis using contains_iff by blast
qed

lemma infix_of_line:
  assumes "l \<in> set (split_nl s)" "contains l n"
  shows "contains s n"
proof -
  obtain ps ss where a: "s = ps @ l @ ss" using assms(1) line_infix by blast
  obtain ps' ss' where "l = ps' @ n @ ss'" using assms(2) contains_iff by blast
  with a have "s = (ps @ ps') @ n @ (ss' @ ss)" by simp
  then show ?thesis using contains_iff by blast
qed

lemma indicator_scan_iff:
  "indicator_scan inds c \<longleftrightarrow> (\<exists>ind \<in> set inds. contains c ind)"
  by (induction inds) auto

lemma noise_scan_iff:
  "noise_scan ps l \<longleftrightarrow> (\<exists>p \<in> set ps. re_search True p l)"
  by (induction ps) auto

lemma indicator_ends:
  "ind \<in> set noise_indicators \<Longrightarrow> ind \<noteq> [] \<and> \<not> isspace (hd ind) \<and> \<not> isspace (last ind)"
  by (auto simp: noise_indicators_def u_def isspace_def CORNER_def STAR6_def)

lemma parse_loop_eq: "parse_loop raws acc = acc @ List.map_filter turn_of raws"
  by (induction raws arbitrary: acc) (auto simp: List.map_filter_simps split: option.splits)

lemma parse_loop_member:
  "m \<in> set (parse_loop raws []) \<Longrightarrow> \<exists>raw \<in> set raws. turn_of raw = Some m"
  by (auto simp: parse_loop_eq List.map_filter_def)

lemma strip_Nil: "strip [] = []"
  by (simp add: strip_def)

lemma turn_of_content:
  assumes "turn_of raw = Some m"
  shows "\<exists>c. content m = filter_noise c \<and> strip (content m) \<noteq> [] \<and> \<not> is_noise_message (content m)"
  using assms by (auto simp: turn_of_def Let_def split: if_splits)

lemma replicate_numeral: "replicate (numeral v) x = x # replicate (numeral v - 1) x"
  by (simp add: numeral_eq_Suc)

lemmas rx_defs = NOISE_PATTERNS_def re_search_def seq_def lit_def chr_def ws_def
  STAR6_def CORNER_def BOX_EMPTY_def BOX_CHECKED_def E_ACUTE_def NL_def isspace_def
  ci_variants_def

lemmas parse_defs = parse_json_export_def turn_of_def extract_content_from_json_def
  text_or_empty_def get_or_def is_noise_message_def strip_def replace_char_def
  noise_indicators_def filter_noise_def startswith_def Let_def

lemma parse_long_star:
  "parse_json_export long_star_export =
     Inr \<lparr>name = u ''Unknown Chat'', summary = [], created = [], updated = [],
          messages = [\<lparr>sender = JStr (u ''unknown''), content = STAR6 # replicate 99 0x78,
                       timestamp = []\<rparr>]\<rparr>"
  by (simp add: long_star_export_def parse_defs rx_defs replicate_numeral)

lemma parse_hello: "parse_json_export hello_export = Inr hello_data"
  by (simp add: hello_export_def hello_data_def hello_message_def parse_defs rx_defs u_def)

lemma surviving_line:
  assumes "parse_json_export d = Inr r" and "m \<in> set (messages r)"
    and "l \<in> set (split_nl (content m))"
  shows "\<not> noise_scan NOISE_PATTERNS l"
    and "length (strip (content m)) < 100 \<Longrightarrow> \<not> indicator_scan noise_indicators l"
proof -
  from assms(1) have "messages r =
      parse_loop (get_or (export_chat_messages d) (get_or (export_messages d) [])) []"
    by (auto simp: parse_json_export_def Let_def split: if_splits)
  with assms(2) obtain raw where "turn_of raw = Some m"
    using parse_loop_member by metis
  then obtain c where c: "content m = filter_noise c" "strip (content m) \<noteq> []"
      "\<not> is_noise_message (content m)"
    using turn_of_content by blast
  have ne: "filter (\<lambda>l. \<not> noise_scan NOISE_PATTERNS l) (split_nl c) \<noteq> []"
  proof
    assume "filter (\<lambda>l. \<not> noise_scan NOISE_PATTERNS l) (split_nl c) = []"
    then have "filter_noise c = []" by (rule filter_noise_all_dropped)
    with c(1,2) show False by (simp add: strip_Nil)
  qed
  from split_filter_noise [OF ne] assms(3) c(1)
  show "\<not> noise_scan NOISE_PATTERNS l" by auto
  show "\<not> indicator_scan noise_indicators l" if short: "length (strip (content m)) < 100"
  proof
    assume "indicator_scan noise_indicators l"
    then obtain ind where ind: "ind \<in> set noise_indicators" "contains l ind"
      using indicator_scan_iff by blast
    from ind(2) assms(3) have "contains (content m) ind" by (rule infix_of_line [rotated])
    with indicator_ends [OF ind(1)] have "contains (strip (content m)) ind"
      using strip_keeps_infix by blast
    with ind(1) have "indicator_scan noise_indicators (strip (content m))"
      using indicator_scan_iff by blast
    with short c(3) show False by (simp add: is_noise_message_def Let_def)
  qed
qed

lemma set_update_distinct: "distinct paths \<Longrightarrow> distinct (set_update paths ms)"
  by (induction ms arbitrary: paths) auto

lemma collect_paths_distinct: "distinct paths \<Longrightarrow> distinct (collect_paths ps text paths)"
  by (induction ps arbitrary: paths) (auto simp: set_update_distinct)

lemma sorted_paths_props:
  "sorted (sorted_paths it)" "set (sorted_paths it) = {p \<in> set it. keep_path p}"
  "distinct it \<Longrightarrow> distinct (sorted_paths it)"
  by (auto simp: sorted_paths_def)

lemma sorted_paths_order_free:
  assumes "distinct it" "distinct it'" "set it = set it'"
  shows "sorted_paths it = sorted_paths it'"
proof (rule sorted_distinct_set_unique)
  show "sorted (sorted_paths it)" "sorted (sorted_paths it')"
    by (rule sorted_paths_props(1))+
  show "distinct (sorted_paths it)" "distinct (sorted_paths it')"
    using assms(1,2) by (simp_all add: sorted_paths_props(3))
  show "set (sorted_paths it) = set (sorted_paths it')"
    using assms(3) by (simp add: sorted_paths_props(2))
qed

lemmas path_defs = extract_file_paths_def sorted_paths_def keep_path_def path_patterns_def
  path_chars_def word_char_def ascii_alnum_def findall_def seq_def lit_def chr_def
  isspace_def startswith_def u_def

lemma collect_paths_text:
  "collect_paths (path_patterns ascii_alnum) paths_text [] =
     [u ''/a.py'', u ''//x/y.js'', u ''/a.c'', u ''src/a.py'', u ''lib/a.c'']"
  by (simp add: paths_text_def path_defs)

lemma extract_paths_text:
  "extract_file_paths ascii_alnum paths_text = [u ''lib/a.c'', u ''src/a.py'']"
  by (simp add: paths_text_def path_defs)

lemma marker_scan_eq:
  "marker_scan ms line ds =
     (if \<exists>m \<in> set ms. re_search True m line then ds @ [line] else ds)"
  by (induction ms) auto

lemma decisions_loop_eq:
  "decisions_loop ls ds =
     ds @ filter (\<lambda>l. 20 < length l \<and> length l < 500 \<and>
                      (\<exists>m \<in> set decision_markers. re_search True m l)) (map strip ls)"
  by (induction ls arbitrary: ds) (auto simp: marker_scan_eq Let_def)

lemma render_loop_eq: "render_loop ms acc = acc @ concat (map turn_lines ms)"
  by (induction ms arbitrary: acc) auto



lemma slice_from_last:
  "0 < n \<Longrightarrow> slice_from (- n) xs = drop (length xs - nat n) xs"
  by (auto simp: slice_from_def slice_index_def max_def intro!: arg_cong [where f = "\<lambda>k. drop k xs"])

lemma slice_from_zero: "slice_from 0 xs = xs"
  by (simp add: slice_from_def slice_index_def)

lemma recent_messages_all:
  assumes "int (length msgs) \<le> vc"
  shows "recent_messages vc msgs = msgs"
proof (cases "0 < vc")
  case True
  with assms show ?thesis by (simp add: recent_messages_def slice_from_last)
next
  case False
  with assms have "length msgs = 0" by linarith
  then show ?thesis by (simp add: recent_messages_def slice_from_def)
qed

lemma recent_messages_positive:
  "0 < vc \<Longrightarrow> recent_messages vc msgs = drop (length msgs - nat vc) msgs"
  by (simp add: recent_messages_def slice_from_last)

lemma older_messages_none: "int (length msgs) \<le> vc \<Longrightarrow> older_messages vc msgs = []"
  by (simp add: older_messages_def)










lemma filter_noise_status_text: "filter_noise status_text = u ''keep this''"
  by (simp add: status_text_def filter_noise_def rx_defs u_def)

lemma star_message_dropped:
  "turn_of \<lparr>raw_sender = None, raw_content = CAbsent,
            raw_text = Some ([STAR6] @ u '' Compacting conversation...''),
            raw_created_at = None\<rparr> = None"
  by (simp add: parse_defs rx_defs u_def)

lemma standard_window_length:
  "length (slice_from (- int VERBATIM_MESSAGE_COUNT) msgs) = min VERBATIM_MESSAGE_COUNT (length msgs)"
  by (simp add: slice_from_last VERBATIM_MESSAGE_COUNT_def)

lemma recent_messages_length:
  "0 < vc \<Longrightarrow> length (recent_messages vc msgs) = min (nat vc) (length msgs)"
  by (simp add: recent_messages_positive)

lemma decision_defs_example:
  "filter (\<lambda>l. 20 < length l \<and> length l < 500 \<and>
                 (\<exists>m \<in> set decision_markers. re_search True m l))
          (map strip (split_nl decision_text)) =
     [u ''We Decided to use the repository pattern here.'']"
  by (simp add: decision_text_def decision_markers_def alt_def re_search_def strip_def NL_def
      ci_variants_def seq_def lit_def chr_def isspace_def u_def)

section \<open>Claims\<close>

text \<open>
  C1. The noise filter is idempotent: for every text,
  \<open>filter_noise (filter_noise text) = filter_noise text\<close>.
\<close>

theorem filter_noise_idempotent: "filter_noise (filter_noise text) = filter_noise text"
proof (cases "filter (\<lambda>l. \<not> noise_scan NOISE_PATTERNS l) (split_nl text) = []")
  case True
  then have e: "filter_noise text = []" by (rule filter_noise_all_dropped)
  have "filter_noise [] = []"
    by (simp add: filter_noise_lines noise_scan_empty_line)
  with e show ?thesis by simp
next
  case False
  then have s: "split_nl (filter_noise text) =
      filter (\<lambda>l. \<not> noise_scan NOISE_PATTERNS l) (split_nl text)"
    by (rule split_filter_noise)
  have "filter_noise (filter_noise text) =
      join [NL] (filter (\<lambda>l. \<not> noise_scan NOISE_PATTERNS l) (split_nl (filter_noise text)))"
    by (rule filter_noise_lines)
  also have "\<dots> = join [NL] (filter (\<lambda>l. \<not> noise_scan NOISE_PATTERNS l) (split_nl text))"
    by (simp add: s)
  finally show ?thesis by (simp add: filter_noise_lines)
qed

text \<open>
  C2. As stated, the claim says that in every message returned by \<open>parse_json_export\<close>
  no line matches a pattern of \<open>NOISE_PATTERNS\<close> and no line contains one of the
  indicators of \<open>is_noise_message\<close>. The second half fails: \<open>is_noise_message\<close> looks for
  the indicators only when the stripped content is shorter than 100 characters. The
  message made of U+2736 and 99 letters is returned as it is, and its only line contains
  the indicator U+2736.
\<close>

theorem long_message_keeps_indicator:
  "parse_json_export long_star_export =
     Inr \<lparr>name = u ''Unknown Chat'', summary = [], created = [], updated = [],
          messages = [\<lparr>sender = JStr (u ''unknown''), content = STAR6 # replicate 99 0x78,
                       timestamp = []\<rparr>]\<rparr> \<and>
   split_nl (STAR6 # replicate 99 0x78) = [STAR6 # replicate 99 0x78] \<and>
   noise_indicators ! 3 = [STAR6] \<and>
   contains (STAR6 # replicate 99 0x78) [STAR6]"
  by (simp add: parse_long_star split_nl_line noise_indicators_def startswith_def
      NL_def STAR6_def)

text \<open>
  C2, amended. In every message returned by \<open>parse_json_export\<close> no line matches a
  pattern of \<open>NOISE_PATTERNS\<close>; and when the stripped content of the message is shorter
  than 100 characters, no line contains any of the four noise indicators.
\<close>

theorem surviving_lines_noise_free:
  assumes "parse_json_export d = Inr r" and "m \<in> set (messages r)"
    and "l \<in> set (split_nl (content m))"
  shows "(\<forall>p \<in> set NOISE_PATTERNS. \<not> re_search True p l) \<and>
         (length (strip (content m)) < 100 \<longrightarrow>
            (\<forall>ind \<in> set noise_indicators. \<not> contains l ind))"
  using surviving_line [OF assms] noise_scan_iff indicator_scan_iff by blast

theorem surviving_lines_noise_free_witness:
  "parse_json_export hello_export = Inr hello_data \<and>
   hello_message \<in> set (messages hello_data) \<and>
   u ''world'' \<in> set (split_nl (content hello_message)) \<and>
   length (strip (content hello_message)) < 100 \<and>
   \<not> re_search True (NOISE_PATTERNS ! 9) (u ''world'') \<and>
   \<not> contains (u ''world'') (noise_indicators ! 0)"
proof -
  have a: "hello_message \<in> set (messages hello_data)"
    by (simp add: hello_data_def)
  have b: "u ''world'' \<in> set (split_nl (content hello_message))"
    by (simp add: hello_message_def u_def NL_def)
  have c: "length (strip (content hello_message)) < 100"
    by (simp add: hello_message_def u_def NL_def strip_def isspace_def)
  have d: "NOISE_PATTERNS ! 9 \<in> set NOISE_PATTERNS" "noise_indicators ! 0 \<in> set noise_indicators"
    by (simp_all add: NOISE_PATTERNS_def noise_indicators_def)
  from surviving_lines_noise_free [OF parse_hello a b] c d
  show ?thesis using parse_hello a b by blast
qed

text \<open>
  C4. When both containers, \<open>chat_messages\<close> and \<open>messages\<close>, are absent from the export,
  \<open>parse_json_export\<close> raises the error whose message names the two fields (the source
  raises it as a \<open>ValueError\<close>; this is the spec's FormatError), and the result carries
  no turn: the check stands before the loop that builds the turns. When one of the two
  is present, the function returns its dictionary and raises nothing.
\<close>

theorem missing_containers_raise:
  "(export_chat_messages d = None \<and> export_messages d = None \<longrightarrow>
      parse_json_export d = Inl (ValueError missing_field_message)) \<and>
   (export_chat_messages d \<noteq> None \<or> export_messages d \<noteq> None \<longrightarrow>
      (\<exists>r. parse_json_export d = Inr r)) \<and>
   contains missing_field_message (u ''chat_messages'') \<and>
   contains missing_field_message (u ''messages'')"
  by (simp add: parse_json_export_def Let_def missing_field_message_def u_def startswith_def)

theorem missing_containers_raise_witness:
  "export_chat_messages no_container_export = None \<and>
   export_messages no_container_export = None \<and>
   parse_json_export no_container_export = Inl (ValueError missing_field_message) \<and>
   export_messages hello_export \<noteq> None \<and>
   (\<exists>r. parse_json_export hello_export = Inr r)"
proof -
  have a: "export_chat_messages no_container_export = None \<and>
      export_messages no_container_export = None"
    by (simp add: no_container_export_def)
  have b: "export_messages hello_export \<noteq> None"
    by (simp add: hello_export_def)
  from missing_containers_raise [of no_container_export] a
    missing_containers_raise [of hello_export] b
  show ?thesis by blast
qed

text \<open>
  C6. For every text, the list \<open>extract_file_paths\<close> returns has no repeated entry, every
  entry is longer than 5 characters and does not start with \<open>//\<close>, and the list is in
  lexical order. The result is determined by the text: whatever order the set of matches
  is iterated in (any list \<open>it\<close> of its elements without repetition), the same list comes
  out.
\<close>

theorem extract_file_paths_sorted_distinct:
  "distinct (extract_file_paths isalnum text) \<and>
   sorted (extract_file_paths isalnum text) \<and>
   (\<forall>p \<in> set (extract_file_paths isalnum text). 5 < length p \<and> \<not> startswith p (u ''//'')) \<and>
   (\<forall>it. distinct it \<and> set it = set (collect_paths (path_patterns isalnum) text []) \<longrightarrow>
      sorted_paths it = extract_file_paths isalnum text)"
proof -
  have d: "distinct (collect_paths (path_patterns isalnum) text [])"
    by (simp add: collect_paths_distinct)
  have "distinct (extract_file_paths isalnum text)"
    unfolding extract_file_paths_def using d by (rule sorted_paths_props(3))
  moreover have "sorted (extract_file_paths isalnum text)"
    unfolding extract_file_paths_def by (rule sorted_paths_props(1))
  moreover have "\<forall>p \<in> set (extract_file_paths isalnum text).
      5 < length p \<and> \<not> startswith p (u ''//'')"
    by (simp add: extract_file_paths_def sorted_paths_props(2) keep_path_def)
  moreover have "\<forall>it. distinct it \<and> set it = set (collect_paths (path_patterns isalnum) text [])
      \<longrightarrow> sorted_paths it = extract_file_paths isalnum text"
    unfolding extract_file_paths_def using d sorted_paths_order_free by blast
  ultimately show ?thesis by blast
qed

theorem extract_file_paths_sorted_distinct_witness:
  "extract_file_paths ascii_alnum paths_text = [u ''lib/a.c'', u ''src/a.py''] \<and>
   5 < length (u ''lib/a.c'') \<and> \<not> startswith (u ''lib/a.c'') (u ''//'') \<and>
   distinct [u ''lib/a.c'', u ''src/a.py'', u ''/a.c'', u ''//x/y.js'', u ''/a.py''] \<and>
   sorted_paths [u ''lib/a.c'', u ''src/a.py'', u ''/a.c'', u ''//x/y.js'', u ''/a.py''] =
     [u ''lib/a.c'', u ''src/a.py'']"
proof -
  let ?it = "[u ''lib/a.c'', u ''src/a.py'', u ''/a.c'', u ''//x/y.js'', u ''/a.py'']"
  have a: "distinct ?it" by (simp add: u_def)
  have b: "set ?it = set (collect_paths (path_patterns ascii_alnum) paths_text [])"
    by (simp add: collect_paths_text) blast
  have c: "u ''lib/a.c'' \<in> set (extract_file_paths ascii_alnum paths_text)"
    by (simp add: extract_paths_text)
  from extract_file_paths_sorted_distinct [of ascii_alnum paths_text] a b c
  show ?thesis by (simp add: extract_paths_text)
qed

text \<open>
  C7. For every text, \<open>extract_decisions\<close> returns at most 20 entries, and they are the
  first 20, in order of occurrence, of the lines that qualify: the stripped lines whose
  length is strictly between 20 and 500 and in which a decision marker is found.
\<close>

theorem extract_decisions_first_twenty:
  "length (extract_decisions text) \<le> 20 \<and>
   extract_decisions text =
     take 20 (filter (\<lambda>l. 20 < length l \<and> length l < 500 \<and>
                           (\<exists>m \<in> set decision_markers. re_search True m l))
                (map strip (split_nl text)))"
  by (simp add: extract_decisions_def decisions_loop_eq)

theorem extract_decisions_first_twenty_witness:
  "extract_decisions decision_text = [u ''We Decided to use the repository pattern here.'']"
  using extract_decisions_first_twenty [of decision_text]
  by (simp add: decision_defs_example)

text \<open>
  C3. The claim bounds the turns rendered verbatim by the smaller of the configured
  count and the number of turns. With a configured count of 0 the Assisted Strategy
  takes the slice \<open>messages[-0:]\<close>, which is the whole list: for the conversation of two
  turns nothing is summarized, both turns are rendered, and the bound (0) is exceeded.
\<close>

theorem zero_verbatim_count_renders_all:
  "older_messages 0 (messages two_turn_data) = [] \<and>
   recent_messages 0 (messages two_turn_data) = [hello_message, hello_message] \<and>
   generate_handoff_smart urlopen now two_turn_data api_key (verbatim_config 0) log =
     (Inr (join [NL]
        (smart_head now two_turn_data [] [hello_message, hello_message] [] @
         turn_lines hello_message @ turn_lines hello_message @ footer)), log) \<and>
   \<not> length (recent_messages 0 (messages two_turn_data)) \<le> min 0 (length (messages two_turn_data))"
  by (simp add: two_turn_data_def hello_data_def generate_handoff_smart_def verbatim_config_def
      smart_get_def get_or_def older_messages_def recent_messages_def slice_from_def
      slice_to_def slice_index_def render_loop_eq Let_def)

text \<open>
  C5. The Assisted Strategy calls the summarization exactly when the older prefix is not
  empty. When that call fails (\<open>urlopen\<close> gives no response text: an HTTP error, a timeout,
  a malformed response), the run of \<open>main\<close> ends with the exception that
  \<open>call_claude_api\<close> raises (the spec's SummarizationError), and all the run has done is to
  enter the Assisted Strategy and to issue the call: no document is written and the
  Heuristic Strategy is not entered.
\<close>

theorem summarization_failure_propagates:
  assumes "older = older_messages
             (smart_get cfg cfg_verbatim_recent_messages (int VERBATIM_MESSAGE_COUNT))
             (messages data)"
    and "older \<noteq> []"
    and "req = summary_request older (get_or (anthropic_api_key cfg) []) cfg"
    and "\<forall>t. urlopen req \<noteq> Response t"
  shows "\<exists>msg. main_generate urlopen isalnum now Smart data cfg log =
           (Some (Exception msg), log @ [Invoked Smart, ApiCall req])"
proof -
  obtain msg where "call_claude_api urlopen (get_or (anthropic_api_key cfg) [])
      (summary_prompt (conversation_text older)) (smart_get cfg cfg_model SMART_MODEL)
      (smart_get cfg cfg_max_output_tokens SMART_MAX_TOKENS) = Inl (Exception msg)"
    using assms(3,4)
    by (cases "urlopen req") (auto simp: call_claude_api_def summary_request_def)
  with assms(1,2,3) show ?thesis
    by (simp add: main_generate_def generate_handoff_smart_def generate_smart_summary_def
        Let_def)
qed

theorem summarization_failure_propagates_witness:
  "older_messages 1 (messages two_turn_data) = [hello_message] \<and>
   (\<exists>msg. main_generate timeout_urlopen ascii_alnum [] Smart two_turn_data (verbatim_config 1) [] =
      (Some (Exception msg),
       [Invoked Smart, ApiCall (summary_request [hello_message] (u ''key'') (verbatim_config 1))]))"
proof -
  have a: "older_messages
      (smart_get (verbatim_config 1) cfg_verbatim_recent_messages (int VERBATIM_MESSAGE_COUNT))
      (messages two_turn_data) = [hello_message]"
    by (simp add: two_turn_data_def hello_data_def verbatim_config_def smart_get_def get_or_def
        older_messages_def slice_to_def slice_index_def)
  have b: "get_or (anthropic_api_key (verbatim_config 1)) [] = u ''key''"
    by (simp add: verbatim_config_def get_or_def)
  have c: "\<forall>t. timeout_urlopen
      (summary_request [hello_message] (u ''key'') (verbatim_config 1)) \<noteq> Response t"
    by (simp add: timeout_urlopen_def)
  have d: "older_messages 1 (messages two_turn_data) = [hello_message]"
    by (simp add: two_turn_data_def hello_data_def older_messages_def slice_to_def slice_index_def)
  from summarization_failure_propagates [of "[hello_message]" "verbatim_config 1" two_turn_data
      "summary_request [hello_message] (u ''key'') (verbatim_config 1)" timeout_urlopen
      ascii_alnum "[]" "[]"] a b c d
  show ?thesis by simp
qed



text \<open>
  C9. When the conversation has no more turns than the configured verbatim count, the
  older prefix of the Assisted Strategy is empty, the log of calls is returned as it
  came (no summarization call), the document is the header, the optional built-in
  summary, the verbatim section with every turn, and the footer, with no AI-summary
  section.
\<close>

theorem short_conversation_not_summarized:
  assumes "vc = smart_get cfg cfg_verbatim_recent_messages (int VERBATIM_MESSAGE_COUNT)"
    and "int (length (messages data)) \<le> vc"
  shows "older_messages vc (messages data) = [] \<and>
         recent_messages vc (messages data) = messages data \<and>
         generate_handoff_smart urlopen now data api_key cfg log =
           (Inr (join [NL]
              (smart_head now data [] (messages data) [] @
               concat (map turn_lines (messages data)) @ footer)), log) \<and>
         smart_head now data [] (messages data) [] =
           [u ''# Handoff: '' @ name data, [],
            u ''**Generated:** '' @ now,
            u ''**Mode:** Smart (AI-summarized)'',
            u ''**Original Chat Period:** '' @ created data @ u '' to '' @ updated data,
            u ''**Message Count:** '' @ digits (length (messages data)) @ u '' ('' @ digits 0 @
              u '' summarized, '' @ digits (length (messages data)) @ u '' verbatim)'',
            u ''**Original Size:** ~'' @
              commas (estimate_tokens (Count (sum_list (map (\<lambda>m. length (content m)) (messages data))))) @
              u '' tokens'',
            []] @
           quick_context data @
           [u ''## Recent Conversation (Verbatim)'', [],
            u ''*Last '' @ digits (length (messages data)) @
              u '' messages preserved for immediate context:*'',
            []]"
proof -
  have o: "older_messages vc (messages data) = []"
    using assms(2) by (rule older_messages_none)
  have r: "recent_messages vc (messages data) = messages data"
    using assms(2) by (rule recent_messages_all)
  have g: "generate_handoff_smart urlopen now data api_key cfg log =
           (Inr (join [NL]
              (smart_head now data [] (messages data) [] @
               concat (map turn_lines (messages data)) @ footer)), log)"
    using o r assms(1)
    by (simp add: generate_handoff_smart_def Let_def render_loop_eq)
  have h: "smart_head now data [] (messages data) [] =
           [u ''# Handoff: '' @ name data, [],
            u ''**Generated:** '' @ now,
            u ''**Mode:** Smart (AI-summarized)'',
            u ''**Original Chat Period:** '' @ created data @ u '' to '' @ updated data,
            u ''**Message Count:** '' @ digits (length (messages data)) @ u '' ('' @ digits 0 @
              u '' summarized, '' @ digits (length (messages data)) @ u '' verbatim)'',
            u ''**Original Size:** ~'' @
              commas (estimate_tokens (Count (sum_list (map (\<lambda>m. length (content m)) (messages data))))) @
              u '' tokens'',
            []] @
           quick_context data @
           [u ''## Recent Conversation (Verbatim)'', [],
            u ''*Last '' @ digits (length (messages data)) @
              u '' messages preserved for immediate context:*'',
            []]"
    by (simp add: smart_head_def ai_section_def Let_def)
  from o r g h show ?thesis by blast
qed

theorem short_conversation_not_summarized_witness:
  "int (length (messages five_turn_data)) \<le> 30 \<and>
   older_messages 30 (messages five_turn_data) = [] \<and>
   recent_messages 30 (messages five_turn_data) = replicate 5 hello_message \<and>
   snd (generate_handoff_smart timeout_urlopen [] five_turn_data (u ''key'') default_config []) = []"
proof -
  have a: "30 = smart_get default_config cfg_verbatim_recent_messages (int VERBATIM_MESSAGE_COUNT)"
    by (simp add: default_config_def smart_get_def VERBATIM_MESSAGE_COUNT_def)
  have b: "int (length (messages five_turn_data)) \<le> 30"
    by (simp add: five_turn_data_def)
  have c: "messages five_turn_data = replicate 5 hello_message"
    by (simp add: five_turn_data_def)
  from short_conversation_not_summarized [OF a b, of timeout_urlopen "[]" "u ''key''" "[]"] b c
  show ?thesis by simp
qed



end
